theory Spec2Isabelle
  imports Complex_Main
begin

section \<open>Go library functions used by util.go\<close>

text \<open>
  Strings are Go byte strings, modelled as \<open>char list\<close>. Go's \<open>int\<close> and \<open>int64\<close> are
  modelled as \<open>int\<close>; the only place where a bit width decides a result is
  \<open>strconv.ParseInt(s, 10, 32)\<close>, whose clamping is written out.
\<close>

subsection \<open>strings.Index and strings.Split, for a one-byte separator\<close>

fun strings_Index :: "string \<Rightarrow> char \<Rightarrow> int" where
  "strings_Index [] sep = - 1"
| "strings_Index (c # s) sep =
     (if c = sep then 0
      else (let r = strings_Index s sep in if r = - 1 then - 1 else r + 1))"

fun strings_Split :: "string \<Rightarrow> char \<Rightarrow> string list" where
  "strings_Split [] sep = [[]]"
| "strings_Split (c # s) sep =
     (if c = sep then [] # strings_Split s sep
      else (case strings_Split s sep of
              [] \<Rightarrow> [[c]]
            | w # ws \<Rightarrow> (c # w) # ws))"

subsection \<open>strconv.ParseUint and strconv.ParseInt, base 10, bit size 32\<close>

datatype num_error = ErrSyntax | ErrRange

definition is_digit :: "char \<Rightarrow> bool" where
  "is_digit c = (48 \<le> (of_char c :: nat) \<and> (of_char c :: nat) \<le> 57)"

definition digit_val :: "char \<Rightarrow> nat" where
  "digit_val c = of_char c - 48"

definition maxUint64 :: nat where
  "maxUint64 = 2 ^ 64 - 1"

definition maxVal32 :: nat where
  "maxVal32 = 2 ^ 32 - 1"

text \<open>
  The digit loop of \<open>ParseUint\<close>: \<open>n\<close> is the \<open>uint64\<close> accumulator. A byte that is not a
  decimal digit ends the loop with a syntax error and value 0; an accumulator that leaves
  the 32-bit range ends it at once with a range error and the maximal value, before the
  remaining bytes are looked at.
\<close>

fun ParseUint_loop :: "nat \<Rightarrow> string \<Rightarrow> nat \<times> num_error option" where
  "ParseUint_loop n [] = (n, None)"
| "ParseUint_loop n (c # s) =
     (if \<not> is_digit c then (0, Some ErrSyntax)
      else if n \<ge> maxUint64 div 10 + 1 then (maxVal32, Some ErrRange)
      else (let n' = n * 10;
                n1 = (n' + digit_val c) mod 2 ^ 64
            in if n1 < n' \<or> n1 > maxVal32 then (maxVal32, Some ErrRange)
               else ParseUint_loop n1 s))"

definition ParseUint :: "string \<Rightarrow> nat \<times> num_error option" where
  "ParseUint s = (if s = [] then (0, Some ErrSyntax) else ParseUint_loop 0 s)"

definition ParseInt :: "string \<Rightarrow> int \<times> num_error option" where
  "ParseInt s0 =
     (if s0 = [] then (0, Some ErrSyntax)
      else
        (let neg = (hd s0 = CHR ''-'');
             s = (if hd s0 = CHR ''+'' \<or> hd s0 = CHR ''-'' then tl s0 else s0);
             (un, err) = ParseUint s
         in if err = Some ErrSyntax then (0, err)
            else (let cutoff = (2 :: nat) ^ 31
                  in if \<not> neg \<and> un \<ge> cutoff then (int cutoff - 1, Some ErrRange)
                     else if neg \<and> un > cutoff then (- int cutoff, Some ErrRange)
                     else (if neg then - int un else int un, None))))"

subsection \<open>Decimal output: time.Format fields and fmt's zero-padded verb\<close>

definition digit_char :: "nat \<Rightarrow> char" where
  "digit_char d = char_of (48 + d)"

fun decimal :: "nat \<Rightarrow> string" where
  "decimal u = (if u \<ge> 10 then decimal (u div 10) @ [digit_char (u mod 10)]
                else [digit_char u])"

declare decimal.simps [simp del]

text \<open>
  \<open>appendInt\<close> of package time: a minus sign for a negative value, then the digits,
  zero-padded to \<open>width\<close>. The layouts \<open>"2006"\<close>, \<open>"01"\<close> and \<open>"02"\<close> print the year with
  width 4, the month and the day with width 2.
\<close>

definition appendInt :: "int \<Rightarrow> nat \<Rightarrow> string" where
  "appendInt x width =
     (let ds = decimal (nat \<bar>x\<bar>)
      in (if x < 0 then ''-'' else []) @ replicate (width - length ds) (CHR ''0'') @ ds)"

text \<open>
  \<open>fmt.Sprintf("%0Nd", x)\<close>: the width counts the sign.
\<close>

definition sprintf_0d :: "nat \<Rightarrow> int \<Rightarrow> string" where
  "sprintf_0d width x =
     (let ds = decimal (nat \<bar>x\<bar>);
          prec = (if x < 0 then width - 1 else width)
      in (if x < 0 then ''-'' else []) @ replicate (prec - length ds) (CHR ''0'') @ ds)"

section \<open>The day-event record and the configured-event file\<close>

text \<open>
  Modelled from the spec: the declarations of \<open>gDate\<close> and \<open>Gocaldate\<close> are not in
  util.go. \<open>gDate\<close> has the five fields of the spec's DayEvent, in the order of the
  composite literals of util.go (month, day, text, weekday, image; the text field
  is named \<open>etext\<close> here); \<open>Gocaldate\<close> has
  the three string fields util.go reads (\<open>m.Date\<close>, \<open>m.Text\<close>, \<open>m.Image\<close>).
\<close>

record gDate =
  month :: int
  day :: int
  etext :: string
  weekday :: string
  image :: string

record Gocaldate =
  Date :: string
  Text :: string
  Image :: string

datatype panic = IndexOutOfRange | SliceOutOfRange | NilFunc

text \<open>
  The body of the loop of \<open>readConfigurationfile\<close> for one entry \<open>m\<close>: the records it
  appends to \<open>eL\<close>. \<open>convertCP\<close> is the encoding conversion, a parameter.
\<close>

definition star_entries :: "int \<Rightarrow> string \<Rightarrow> string \<Rightarrow> gDate list" where
  "star_entries d eventText img =
     map (\<lambda>j. \<lparr>month = j, day = d, etext = eventText, weekday = [], image = img\<rparr>)
       (map int [1..<13])"

definition expand_entry :: "(string \<Rightarrow> string) \<Rightarrow> Gocaldate \<Rightarrow> panic + gDate list" where
  "expand_entry convertCP m =
     (if strings_Index (Date m) (CHR ''/'') \<noteq> - 1 then
        (let textArray = strings_Split (Date m) (CHR ''/'');
             eventText = convertCP (Text m)
         in case textArray of
              t0 # t1 # _ \<Rightarrow>
                (if t0 = ''*'' then
                   (let d = fst (ParseInt t1)
                    in Inr (star_entries d eventText (Image m)))
                 else
                   (let mo = fst (ParseInt t0);
                        d = fst (ParseInt t1)
                    in Inr [\<lparr>month = mo, day = d, etext = eventText, weekday = [],
                              image = Image m\<rparr>]))
            | _ \<Rightarrow> Inl IndexOutOfRange)
      else
        (let eventText = convertCP (Text m)
         in Inr [\<lparr>month = 0, day = 0, etext = eventText, weekday = Date m,
                   image = Image m\<rparr>]))"

fun expand_loop :: "(string \<Rightarrow> string) \<Rightarrow> Gocaldate list \<Rightarrow> gDate list \<Rightarrow> panic + gDate list"
  where
  "expand_loop convertCP [] eL = Inr eL"
| "expand_loop convertCP (m # ms) eL =
     (case expand_entry convertCP m of
        Inl p \<Rightarrow> Inl p
      | Inr gs \<Rightarrow> expand_loop convertCP ms (eL @ gs))"

text \<open>
  The outside world of \<open>readConfigurationfile\<close>: \<open>os.Open\<close> gives an error or a file,
  \<open>ioutil.ReadAll\<close> an error or the bytes, \<open>xml.Unmarshal\<close> an error or the entries of
  the \<open>TelegramStore\<close>. A call ends in one of three ways: it returns a list, it ends
  the process (\<open>log.Fatalf\<close>), or it panics.
\<close>

datatype io_error = IOError string

record sys =
  os_Open :: "string \<Rightarrow> io_error + nat"
  ReadAll :: "nat \<Rightarrow> io_error + string"
  xml_Unmarshal :: "string \<Rightarrow> string + Gocaldate list"

datatype outcome = Returned "gDate list" | Fatal string | Panicked panic

definition readConfigurationfile :: "sys \<Rightarrow> (string \<Rightarrow> string) \<Rightarrow> string \<Rightarrow> outcome" where
  "readConfigurationfile w convertCP filename =
     (case os_Open w filename of
        Inl err \<Rightarrow> Returned []
      | Inr f \<Rightarrow>
          (case ReadAll w f of
             Inl err \<Rightarrow> Returned []
           | Inr data \<Rightarrow>
               (case xml_Unmarshal w data of
                  Inl err2 \<Rightarrow> Fatal err2
                | Inr v \<Rightarrow>
                    (case expand_loop convertCP v [] of
                       Inl p \<Rightarrow> Panicked p
                     | Inr eL \<Rightarrow> Returned eL))))"

section \<open>The calendar-exchange importer\<close>









section \<open>The moon-phase calculator\<close>

text \<open>
  The packages julian and moonphase are parameters: a record of the functions util.go
  calls. \<open>float64\<close> values are modelled as reals; \<open>go_int\<close> is the conversion
  \<open>int(d)\<close>, which truncates towards zero.
\<close>

record astro =
  LeapYearGregorian :: "int \<Rightarrow> bool"
  DayOfYearGregorian :: "int \<Rightarrow> int \<Rightarrow> int \<Rightarrow> int"
  JDToCalendar :: "real \<Rightarrow> int \<times> int \<times> real"
  moonphase_New :: "real \<Rightarrow> real"
  moonphase_Full :: "real \<Rightarrow> real"
  moonphase_First :: "real \<Rightarrow> real"
  moonphase_Last :: "real \<Rightarrow> real"

definition go_int :: "real \<Rightarrow> int" where
  "go_int d = (if d < 0 then \<lceil>d\<rceil> else \<lfloor>d\<rfloor>)"

definition daysInYear :: "astro \<Rightarrow> int \<Rightarrow> int" where
  "daysInYear lib yr = (if LeapYearGregorian lib yr then 366 else 365)"

subsection \<open>computeMoonphasesJ\<close>

definition moon_funcs :: "astro \<Rightarrow> (string \<times> (real \<Rightarrow> real)) list" where
  "moon_funcs lib =
     [(''Full'', moonphase_Full lib),
      (''New'', moonphase_New lib),
      (''First'', moonphase_First lib),
      (''Last'', moonphase_Last lib)]"

definition moonString :: "astro \<Rightarrow> real \<Rightarrow> string" where
  "moonString lib jd =
     (case JDToCalendar lib jd of
        (y, m, d) \<Rightarrow> sprintf_0d 4 y @ ''-'' @ sprintf_0d 2 m @ ''-'' @ sprintf_0d 2 (go_int d))"

definition decimalYearJ :: "astro \<Rightarrow> int \<Rightarrow> nat \<Rightarrow> real" where
  "decimalYearJ lib yr i =
     real_of_int yr + real_of_int (int i - 1) / real_of_int (daysInYear lib yr)"

text \<open>
  The inner loop ranges over the keys of the map \<open>moon_funcs\<close>. Go leaves the order of
  that iteration open, so the keys come as a list \<open>ks\<close>, one list for each day index.
  Calling the function stored under a key that is not in the map would be a call of nil.
\<close>

fun moonJ_range ::
  "astro \<Rightarrow> real \<Rightarrow> string list \<Rightarrow> (string \<rightharpoonup> string) \<Rightarrow> panic + (string \<rightharpoonup> string)" where
  "moonJ_range lib decimalYear [] moonJ = Inr moonJ"
| "moonJ_range lib decimalYear (moonkey # ks) moonJ =
     (case map_of (moon_funcs lib) moonkey of
        None \<Rightarrow> Inl NilFunc
      | Some f \<Rightarrow>
          moonJ_range lib decimalYear ks (moonJ(moonString lib (f decimalYear) \<mapsto> moonkey)))"

fun moonJ_loop ::
  "astro \<Rightarrow> (nat \<Rightarrow> string list) \<Rightarrow> int \<Rightarrow> nat list \<Rightarrow> (string \<rightharpoonup> string)
     \<Rightarrow> panic + (string \<rightharpoonup> string)" where
  "moonJ_loop lib order yr [] moonJ = Inr moonJ"
| "moonJ_loop lib order yr (i # is) moonJ =
     (case moonJ_range lib (decimalYearJ lib yr i) (order i) moonJ of
        Inl p \<Rightarrow> Inl p
      | Inr moonJ' \<Rightarrow> moonJ_loop lib order yr is moonJ')"

definition computeMoonphasesJ ::
  "astro \<Rightarrow> (nat \<Rightarrow> string list) \<Rightarrow> (string \<rightharpoonup> string) \<Rightarrow> int \<Rightarrow> panic + (string \<rightharpoonup> string)"
  where
  "computeMoonphasesJ lib order moonJ yr =
     moonJ_loop lib order yr [0..<nat (daysInYear lib yr)] moonJ"

text \<open>An iteration order of the map: each of its four keys once.\<close>

definition range_order :: "astro \<Rightarrow> string list \<Rightarrow> bool" where
  "range_order lib ks = (distinct ks \<and> set ks = set (map fst (moon_funcs lib)))"

definition labels :: "string set" where
  "labels = {''New'', ''First'', ''Full'', ''Last''}"

subsection \<open>computeMoonphases\<close>

text \<open>
  One of the four tests of the loop body: the phase instant \<open>jdeNew\<close> is converted to a
  calendar date and, when it is day \<open>i\<close> of the month asked for, stored under
  \<open>int(d)\<close>. The two \<open>Printf\<close> calls are not modelled.
\<close>

definition moon_test ::
  "astro \<Rightarrow> real \<Rightarrow> int \<Rightarrow> int \<Rightarrow> int \<Rightarrow> string \<Rightarrow> (int \<rightharpoonup> string) \<Rightarrow> (int \<rightharpoonup> string)" where
  "moon_test lib jdeNew yr mo i label moon =
     (case JDToCalendar lib jdeNew of
        (y, m, d) \<Rightarrow>
          if y = yr \<and> m = mo \<and> go_int d = i then moon(go_int d \<mapsto> label) else moon)"

definition decimalYear :: "astro \<Rightarrow> int \<Rightarrow> int \<Rightarrow> int \<Rightarrow> int \<Rightarrow> real" where
  "decimalYear lib da mo yr i =
     (let dayOfYear = DayOfYearGregorian lib yr mo (da + i)
      in real_of_int yr + real_of_int (dayOfYear - 1) / real_of_int (daysInYear lib yr))"

definition moon_body :: "astro \<Rightarrow> int \<Rightarrow> int \<Rightarrow> int \<Rightarrow> int \<Rightarrow> (int \<rightharpoonup> string) \<Rightarrow> (int \<rightharpoonup> string)"
  where
  "moon_body lib da mo yr i moon =
     (let dy = decimalYear lib da mo yr i;
          moon1 = moon_test lib (moonphase_New lib dy) yr mo i ''New'' moon;
          moon2 = moon_test lib (moonphase_Full lib dy) yr mo i ''Full'' moon1;
          moon3 = moon_test lib (moonphase_First lib dy) yr mo i ''First'' moon2;
          moon4 = moon_test lib (moonphase_Last lib dy) yr mo i ''Last'' moon3
      in moon4)"

fun moon_loop ::
  "astro \<Rightarrow> int \<Rightarrow> int \<Rightarrow> int \<Rightarrow> int list \<Rightarrow> (int \<rightharpoonup> string) \<Rightarrow> (int \<rightharpoonup> string)" where
  "moon_loop lib da mo yr [] moon = moon"
| "moon_loop lib da mo yr (i # is) moon = moon_loop lib da mo yr is (moon_body lib da mo yr i moon)"

definition computeMoonphases ::
  "astro \<Rightarrow> (int \<rightharpoonup> string) \<Rightarrow> int \<Rightarrow> int \<Rightarrow> int \<Rightarrow> (int \<rightharpoonup> string)" where
  "computeMoonphases lib moon da mo yr = moon_loop lib da mo yr (map int [0..<32]) moon"

text \<open>
  Whether the test for one phase function succeeds at offset \<open>i\<close>.
\<close>

definition phase_on :: "astro \<Rightarrow> (real \<Rightarrow> real) \<Rightarrow> int \<Rightarrow> int \<Rightarrow> int \<Rightarrow> int \<Rightarrow> bool" where
  "phase_on lib phase da mo yr i =
     (case JDToCalendar lib (phase (decimalYear lib da mo yr i)) of
        (y, m, d) \<Rightarrow> y = yr \<and> m = mo \<and> go_int d = i)"

section \<open>The locale name provider\<close>

text \<open>
  \<open>monday.Format\<close> is a parameter \<open>fmt\<close>: from the date (year, month, day), the layout
  and the locale to the formatted text. The array \<open>wdnames\<close> has 8 elements, all empty
  at the start. The slice expression \<open>wdnames[i][0:cutoff]\<close> panics when \<open>cutoff\<close> is
  larger than the length of the string.
\<close>

definition wd_body ::
  "(int \<times> int \<times> int \<Rightarrow> string \<Rightarrow> string \<Rightarrow> string) \<Rightarrow> (string \<Rightarrow> string) \<Rightarrow> string \<Rightarrow> int
     \<Rightarrow> nat \<Rightarrow> string list \<Rightarrow> panic + string list" where
  "wd_body fmt convertCP locale cutoff i wdnames =
     (let wd1 = wdnames[i := convertCP (fmt (2013, 1, 5 + int i) ''Monday'' locale)]
      in if cutoff > 0 then
           (if cutoff \<le> int (length (wd1 ! i))
            then Inr (wd1[i := take (nat cutoff) (wd1 ! i)])
            else Inl SliceOutOfRange)
         else Inr wd1)"

fun wd_loop ::
  "(int \<times> int \<times> int \<Rightarrow> string \<Rightarrow> string \<Rightarrow> string) \<Rightarrow> (string \<Rightarrow> string) \<Rightarrow> string \<Rightarrow> int
     \<Rightarrow> nat list \<Rightarrow> string list \<Rightarrow> panic + string list" where
  "wd_loop fmt convertCP locale cutoff [] wdnames = Inr wdnames"
| "wd_loop fmt convertCP locale cutoff (i # is) wdnames =
     (case wd_body fmt convertCP locale cutoff i wdnames of
        Inl p \<Rightarrow> Inl p
      | Inr wd' \<Rightarrow> wd_loop fmt convertCP locale cutoff is wd')"

definition getLocalizedWeekdayNames ::
  "(int \<times> int \<times> int \<Rightarrow> string \<Rightarrow> string \<Rightarrow> string) \<Rightarrow> (string \<Rightarrow> string) \<Rightarrow> string \<Rightarrow> int
     \<Rightarrow> panic + string list" where
  "getLocalizedWeekdayNames fmt convertCP locale cutoff =
     wd_loop fmt convertCP locale cutoff [0..<7] (replicate 8 [])"

text \<open>
  The name the loop stores at index \<open>i\<close> before the cut, and the cut itself.
\<close>

definition wd_name ::
  "(int \<times> int \<times> int \<Rightarrow> string \<Rightarrow> string \<Rightarrow> string) \<Rightarrow> (string \<Rightarrow> string) \<Rightarrow> string \<Rightarrow> nat
     \<Rightarrow> string" where
  "wd_name fmt convertCP locale i = convertCP (fmt (2013, 1, 5 + int i) ''Monday'' locale)"

definition wd_cut :: "int \<Rightarrow> string \<Rightarrow> string" where
  "wd_cut cutoff s = (if cutoff > 0 then take (nat cutoff) s else s)"

section \<open>The shapes of a day event\<close>







section \<open>Auxiliary notions for the moon-phase calculator\<close>

text \<open>
  The value \<open>computeMoonphases\<close> leaves at key \<open>i\<close> when the old value is
  \<open>old\<close>: the four tests run in the order New, Full, First, Last, and each that
  succeeds overwrites.
\<close>

definition moon_mark :: "astro \<Rightarrow> int \<Rightarrow> int \<Rightarrow> int \<Rightarrow> int \<Rightarrow> string option \<Rightarrow> string option" where
  "moon_mark lib da mo yr i old =
     (if phase_on lib (moonphase_Last lib) da mo yr i then Some ''Last''
      else if phase_on lib (moonphase_First lib) da mo yr i then Some ''First''
      else if phase_on lib (moonphase_Full lib) da mo yr i then Some ''Full''
      else if phase_on lib (moonphase_New lib) da mo yr i then Some ''New''
      else old)"

text \<open>
  The assumption on the calendar conversion: the day of the month it returns is at
  least 1.
\<close>

definition days_from_one :: "astro \<Rightarrow> bool" where
  "days_from_one lib = (\<forall>jd. 1 \<le> snd (snd (JDToCalendar lib jd)))"

text \<open>
  All pairs (date key, label) that \<open>computeMoonphasesJ\<close> stores for a year: for each
  day index and each phase function, the date of the phase instant and the label of
  the function.
\<close>

definition moon_writes :: "astro \<Rightarrow> int \<Rightarrow> (string \<times> string) list" where
  "moon_writes lib yr =
     concat (map (\<lambda>i. map (\<lambda>(moonkey, f). (moonString lib (f (decimalYearJ lib yr i)), moonkey))
                          (moon_funcs lib))
                 [0..<nat (daysInYear lib yr)])"

text \<open>The pairs one run of the inner loop stores, for the keys \<open>ks\<close>.\<close>

definition range_writes :: "astro \<Rightarrow> real \<Rightarrow> string list \<Rightarrow> (string \<times> string) set" where
  "range_writes lib dy ks =
     (\<lambda>moonkey. (moonString lib (the (map_of (moon_funcs lib) moonkey) dy), moonkey)) ` set ks"

text \<open>
  A map \<open>m\<close> that arises from \<open>m0\<close> by storing pairs of \<open>W\<close>, each of them at
  least once.
\<close>

definition written :: "('k \<rightharpoonup> 'v) \<Rightarrow> ('k \<times> 'v) set \<Rightarrow> ('k \<rightharpoonup> 'v) \<Rightarrow> bool" where
  "written m0 W m =
     (dom m = dom m0 \<union> fst ` W \<and> (\<forall>s v. m s = Some v \<longrightarrow> m0 s = Some v \<or> (s, v) \<in> W))"

section \<open>Sample libraries\<close>

text \<open>
  Concrete values for the library parameters, used where a statement is evaluated at a
  concrete input. The astronomical sample follows Meeus, Astronomical Algorithms: the
  phase functions return the instant of the mean phase nearest to the given decimal year
  (chapter 49, without the periodic corrections, which move a phase by less than a
  day), the calendar conversion is that of chapter 7 (for positive Julian days).
\<close>

definition snap :: "real \<Rightarrow> real \<Rightarrow> real" where
  "snap y q = real_of_int \<lfloor>(y - 2000) * 12.3685 - q + 1 / 2\<rfloor> + q"

definition mean_jde :: "real \<Rightarrow> real" where
  "mean_jde k = 2451550.09766 + 29.530588861 * k"

definition gregorian_leap :: "int \<Rightarrow> bool" where
  "gregorian_leap y = ((y mod 4 = 0 \<and> y mod 100 \<noteq> 0) \<or> y mod 400 = 0)"

definition meeus_DayOfYear :: "int \<Rightarrow> int \<Rightarrow> int \<Rightarrow> int" where
  "meeus_DayOfYear y m d =
     (let k = (if gregorian_leap y then 1 else 2)
      in 275 * m div 9 - k * ((m + 9) div 12) + d - 30)"

definition meeus_JDToCalendar :: "real \<Rightarrow> int \<times> int \<times> real" where
  "meeus_JDToCalendar jd =
     (let z = \<lfloor>jd + 1 / 2\<rfloor>;
          f = jd + 1 / 2 - real_of_int z;
          a = (if z \<ge> 2299161
               then (let al = (z * 100 - 186721625) div 3652425 in z + 1 + al - al div 4)
               else z);
          b = a + 1524;
          c = (b * 100 - 12210) div 36525;
          d = (36525 * c) div 100;
          e = ((b - d) * 10000) div 306001;
          dd = real_of_int (b - d - (306001 * e) div 10000) + f;
          mm = (if e = 14 \<or> e = 15 then e - 13 else e - 1);
          yy = (if mm = 1 \<or> mm = 2 then c - 4715 else c - 4716)
      in (yy, mm, dd))"

definition mean_astro :: astro where
  "mean_astro =
     \<lparr>LeapYearGregorian = gregorian_leap,
      DayOfYearGregorian = meeus_DayOfYear,
      JDToCalendar = meeus_JDToCalendar,
      moonphase_New = (\<lambda>y. mean_jde (snap y 0)),
      moonphase_Full = (\<lambda>y. mean_jde (snap y (1 / 2))),
      moonphase_First = (\<lambda>y. mean_jde (snap y (1 / 4))),
      moonphase_Last = (\<lambda>y. mean_jde (snap y (3 / 4)))\<rparr>"

text \<open>The order in which the map literal of \<open>computeMoonphasesJ\<close> lists its keys.\<close>

definition literal_order :: "nat \<Rightarrow> string list" where
  "literal_order i = [''Full'', ''New'', ''First'', ''Last'']"

text \<open>
  The English weekday names of the days of January 2013 (5 January 2013 was a Saturday),
  for the layout \<open>"Monday"\<close>.
\<close>

definition english_Format :: "int \<times> int \<times> int \<Rightarrow> string \<Rightarrow> string \<Rightarrow> string" where
  "english_Format date layout locale =
     (case date of
        (y, m, d) \<Rightarrow>
          [''Saturday'', ''Sunday'', ''Monday'', ''Tuesday'', ''Wednesday'', ''Thursday'',
           ''Friday''] ! nat ((d - 5) mod 7))"

text \<open>
  A file system with two readable files of configured events, a file with broken XML
  and a file that cannot be read; every other name cannot be opened.
\<close>

definition sample_events :: "Gocaldate list" where
  "sample_events =
     [\<lparr>Date = ''*/15'', Text = ''Rent'', Image = ''house.png''\<rparr>,
      \<lparr>Date = ''3/7'', Text = ''Birthday'', Image = []\<rparr>,
      \<lparr>Date = ''Monday'', Text = ''Gym'', Image = []\<rparr>]"

definition odd_events :: "Gocaldate list" where
  "odd_events = [\<lparr>Date = ''13/45'', Text = ''Nothing'', Image = []\<rparr>]"

definition sample_sys :: sys where
  "sample_sys =
     \<lparr>os_Open = (\<lambda>name. if name = ''events.xml'' then Inr 3
                         else if name = ''bad.xml'' then Inr 4
                         else if name = ''locked.xml'' then Inr 5
                         else if name = ''odd.xml'' then Inr 6
                         else Inl (IOError ''no such file'')),
      ReadAll = (\<lambda>f. if f = 3 then Inr ''<Gocal>...</Gocal>''
                      else if f = 4 then Inr ''<Gocal''
                      else if f = 6 then Inr ''<Gocal>odd</Gocal>''
                      else Inl (IOError ''read error'')),
      xml_Unmarshal = (\<lambda>data. if data = ''<Gocal>...</Gocal>'' then Inr sample_events
                               else if data = ''<Gocal>odd</Gocal>'' then Inr odd_events
                               else Inl ''unexpected EOF'')\<rparr>"


text \<open>
  A library in which every instant falls on 5 January 2023, so that all four phases
  collide, and the date key of the sample library for a lunation number.
\<close>

definition same_day_astro :: astro where
  "same_day_astro = mean_astro\<lparr>JDToCalendar := (\<lambda>jd. (2023, 1, 11 / 2))\<rparr>"

definition mean_key :: "int \<times> real \<Rightarrow> string" where
  "mean_key p = moonString mean_astro (mean_jde (real_of_int (fst p) + snd p))"

section \<open>Properties of the locale name provider\<close>

lemma wd_body_ok:
  assumes "i < length wd" "cutoff \<le> 0 \<or> cutoff \<le> int (length (wd_name fmt cv loc i))"
  shows "wd_body fmt cv loc cutoff i wd = Inr (wd[i := wd_cut cutoff (wd_name fmt cv loc i)])"
  using assms by (auto simp: wd_body_def wd_name_def wd_cut_def Let_def)

lemma wd_body_panic:
  assumes "i < length wd" "0 < cutoff" "int (length (wd_name fmt cv loc i)) < cutoff"
  shows "wd_body fmt cv loc cutoff i wd = Inl SliceOutOfRange"
  using assms by (auto simp: wd_body_def wd_name_def Let_def)

lemma wd_body_length:
  "wd_body fmt cv loc cutoff i wd = Inr wd' \<Longrightarrow> length wd' = length wd"
  by (auto simp: wd_body_def Let_def split: if_splits)

lemma wd_loop_panic:
  assumes "0 < cutoff" "i \<in> set js" "int (length (wd_name fmt cv loc i)) < cutoff"
    "\<forall>j \<in> set js. j < length wd"
  shows "wd_loop fmt cv loc cutoff js wd = Inl SliceOutOfRange"
  using assms
proof (induction js arbitrary: wd)
  case Nil
  then show ?case by simp
next
  case (Cons j js)
  show ?case
  proof (cases "wd_body fmt cv loc cutoff j wd")
    case (Inl p)
    then have "p = SliceOutOfRange"
      by (auto simp: wd_body_def Let_def split: if_splits)
    with Inl show ?thesis by simp
  next
    case (Inr wd')
    have len: "length wd' = length wd" using Inr by (rule wd_body_length)
    have "i \<noteq> j"
    proof
      assume "i = j"
      then have "wd_body fmt cv loc cutoff j wd = Inl SliceOutOfRange"
        using Cons.prems by (intro wd_body_panic) auto
      with Inr show False by simp
    qed
    then have "i \<in> set js" using Cons.prems by auto
    then have "wd_loop fmt cv loc cutoff js wd' = Inl SliceOutOfRange"
      using Cons.prems len by (intro Cons.IH) auto
    with Inr show ?thesis by simp
  qed
qed

lemma wd_loop_ok:
  assumes "cutoff \<le> 0 \<or> (\<forall>j \<in> set js. cutoff \<le> int (length (wd_name fmt cv loc j)))"
    "\<forall>j \<in> set js. j < length wd" "distinct js"
  shows "\<exists>wd'. wd_loop fmt cv loc cutoff js wd = Inr wd' \<and> length wd' = length wd \<and>
           (\<forall>k < length wd. wd' ! k = (if k \<in> set js then wd_cut cutoff (wd_name fmt cv loc k) else wd ! k))"
  using assms
proof (induction js arbitrary: wd)
  case Nil
  then show ?case by simp
next
  case (Cons j js)
  let ?wd1 = "wd[j := wd_cut cutoff (wd_name fmt cv loc j)]"
  have b: "wd_body fmt cv loc cutoff j wd = Inr ?wd1"
    using Cons.prems by (intro wd_body_ok) auto
  obtain wd' where w: "wd_loop fmt cv loc cutoff js ?wd1 = Inr wd'" "length wd' = length ?wd1"
    "\<forall>k < length ?wd1. wd' ! k = (if k \<in> set js then wd_cut cutoff (wd_name fmt cv loc k) else ?wd1 ! k)"
    using Cons.IH [of ?wd1] Cons.prems by auto
  have "\<forall>k < length wd. wd' ! k = (if k \<in> set (j # js) then wd_cut cutoff (wd_name fmt cv loc k) else wd ! k)"
    using w(3) Cons.prems by (auto simp: nth_list_update)
  with b w show ?case by simp
qed

lemma english_len:
  assumes "j < 7"
  shows "6 \<le> length (english_Format (2013, 1, 5 + int j) layout locale)"
proof -
  have "j = 0 \<or> j = 1 \<or> j = 2 \<or> j = 3 \<or> j = 4 \<or> j = 5 \<or> j = 6" using assms by arith
  then show ?thesis by (elim disjE) (simp_all add: english_Format_def)
qed

text \<open>
  C10: there are cutoff values greater than 0 for which \<open>getLocalizedWeekdayNames\<close>
  does not return truncated names but panics. The slice \<open>wdnames[i][0:cutoff]\<close> is
  taken without a check of the length: whenever \<open>cutoff\<close> is positive and larger than
  the byte length of one of the seven converted names, for any locale, the call ends
  in a slice-bounds panic.
\<close>

theorem weekday_panic:
  assumes "0 < cutoff" "i < 7" "int (length (convertCP (fmt (2013, 1, 5 + int i) ''Monday'' locale))) < cutoff"
  shows "getLocalizedWeekdayNames fmt convertCP locale cutoff = Inl SliceOutOfRange"
  unfolding getLocalizedWeekdayNames_def
  using assms by (intro wd_loop_panic [where i = i]) (auto simp: wd_name_def)

theorem weekday_panic_witness:
  "(0::int) < 7 \<and> (1::nat) < 7 \<and>
   int (length (id (english_Format (2013, 1, 5 + int 1) ''Monday'' ''en_US''))) < 7 \<and>
   getLocalizedWeekdayNames english_Format id ''en_US'' 7 = Inl SliceOutOfRange"
  using weekday_panic [of 7 1 id english_Format "''en_US''"]
  by (simp add: english_Format_def)

text \<open>
  C7, as amended: for every locale and cutoff for which the call returns (the cutoff is
  not positive, or at most the byte length of each of the seven names), the result has
  8 strings, indices 0 to 6 hold the converted weekday names of 5 to 11 January 2013,
  cut to \<open>cutoff\<close> bytes when \<open>cutoff\<close> is positive, and index 7 is empty.
\<close>

theorem weekday_names:
  assumes "cutoff \<le> 0 \<or> (\<forall>j < 7. cutoff \<le> int (length (convertCP (fmt (2013, 1, 5 + int j) ''Monday'' locale))))"
  shows "\<exists>wd. getLocalizedWeekdayNames fmt convertCP locale cutoff = Inr wd \<and> length wd = 8 \<and>
     wd ! 7 = [] \<and>
     (\<forall>k < 7. wd ! k = wd_cut cutoff (convertCP (fmt (2013, 1, 5 + int k) ''Monday'' locale)))"
proof -
  have "\<exists>wd'. wd_loop fmt convertCP locale cutoff [0..<7] (replicate 8 []) = Inr wd' \<and>
      length wd' = length (replicate 8 ([]::string)) \<and>
      (\<forall>k < length (replicate 8 ([]::string)).
          wd' ! k = (if k \<in> set [0..<7] then wd_cut cutoff (wd_name fmt convertCP locale k)
                     else replicate 8 [] ! k))"
    using assms by (intro wd_loop_ok) (auto simp: wd_name_def)
  then obtain wd where w: "wd_loop fmt convertCP locale cutoff [0..<7] (replicate 8 []) = Inr wd"
    "length wd = 8"
    "\<forall>k < 8. wd ! k = (if k < 7 then wd_cut cutoff (wd_name fmt convertCP locale k)
                     else replicate 8 [] ! k)"
    by auto
  have "wd ! 7 = []" using w(3) by simp
  moreover have "\<forall>k < 7. wd ! k = wd_cut cutoff (convertCP (fmt (2013, 1, 5 + int k) ''Monday'' locale))"
    using w(3) by (simp add: wd_name_def)
  ultimately show ?thesis using w(1,2) unfolding getLocalizedWeekdayNames_def by blast
qed

theorem weekday_names_witness:
  "\<exists>wd. getLocalizedWeekdayNames english_Format id ''en_US'' 3 = Inr wd \<and> length wd = 8 \<and>
     wd ! 7 = [] \<and> wd ! 0 = ''Sat'' \<and> wd ! 6 = ''Fri''"
proof -
  have "\<forall>j < 7. (3::int) \<le> int (length (id (english_Format (2013, 1, 5 + int j) ''Monday'' ''en_US'')))"
    using english_len [of _ "''Monday''" "''en_US''"] by fastforce
  then obtain wd where w: "getLocalizedWeekdayNames english_Format id ''en_US'' 3 = Inr wd"
    "length wd = 8" "wd ! 7 = []"
    "\<forall>k < 7. wd ! k = wd_cut 3 (id (english_Format (2013, 1, 5 + int k) ''Monday'' ''en_US''))"
    using weekday_names [of 3 id english_Format "''en_US''"] by blast
  have "wd ! 0 = ''Sat''" "wd ! 6 = ''Fri''"
    using w(4) by (simp_all add: wd_cut_def english_Format_def)
  with w show ?thesis by blast
qed

text \<open>
  The claim C7 as stated (index 0 empty, indices 1 to 7 populated) fails: for the
  English names and no cutoff, index 0 holds the name of the Saturday and index 7 is
  empty.
\<close>

theorem weekday_index_counterexample: "getLocalizedWeekdayNames english_Format id ''en_US'' 0 =
   Inr [''Saturday'', ''Sunday'', ''Monday'', ''Tuesday'', ''Wednesday'', ''Thursday'', ''Friday'', []]"
  by (simp add: getLocalizedWeekdayNames_def wd_body_def english_Format_def upt_rec numeral_eq_Suc)

section \<open>Properties of the configured-event expander\<close>

text \<open>
  C6: \<open>readConfigurationfile\<close> returns the empty list, as it does for a file without
  entries, when the file cannot be opened or cannot be read, and ends the process when
  the content is not well-formed XML.
\<close>

theorem readConfigurationfile_errors:
  "(os_Open w filename = Inl e \<longrightarrow> readConfigurationfile w convertCP filename = Returned []) \<and>
   (os_Open w filename = Inr f \<and> ReadAll w f = Inl e \<longrightarrow>
      readConfigurationfile w convertCP filename = Returned []) \<and>
   (os_Open w filename = Inr f \<and> ReadAll w f = Inr data \<and> xml_Unmarshal w data = Inl xerr \<longrightarrow>
      readConfigurationfile w convertCP filename = Fatal xerr)"
  by (simp add: readConfigurationfile_def)

theorem readConfigurationfile_errors_witness:
  "readConfigurationfile sample_sys id ''missing.xml'' = Returned [] \<and>
   readConfigurationfile sample_sys id ''locked.xml'' = Returned [] \<and>
   readConfigurationfile sample_sys id ''bad.xml'' = Fatal ''unexpected EOF''"
  using readConfigurationfile_errors [where w = sample_sys and convertCP = id
      and filename = "''missing.xml''" and e = "IOError ''no such file''"]
    readConfigurationfile_errors [where w = sample_sys and convertCP = id
      and filename = "''locked.xml''" and f = 5 and e = "IOError ''read error''"]
    readConfigurationfile_errors [where w = sample_sys and convertCP = id
      and filename = "''bad.xml''" and f = 4 and data = "''<Gocal''" and xerr = "''unexpected EOF''"]
  by (simp add: sample_sys_def)

section \<open>Properties of the Go library functions\<close>

lemma char_of_eq_iff: "(char_of (n::nat) = c) = (n mod 256 = of_char c)"
proof
  assume "char_of n = c"
  then have "of_char (char_of n :: char) = (of_char c :: nat)" by simp
  then show "n mod 256 = of_char c" by simp
next
  assume "n mod 256 = of_char c"
  then have "char_of (n mod 256) = (char_of (of_char c :: nat) :: char)" by simp
  then show "char_of n = c" by simp
qed

lemma digit_char_props:
  assumes "d < 10"
  shows "is_digit (digit_char d)" "digit_val (digit_char d) = d"
    "digit_char d \<noteq> CHR ''+''" "digit_char d \<noteq> CHR ''-''" "digit_char d \<noteq> CHR ''/''"
    "digit_char d \<noteq> CHR ''*''"
proof -
  have "d = 0 \<or> d = 1 \<or> d = 2 \<or> d = 3 \<or> d = 4 \<or> d = 5 \<or> d = 6 \<or> d = 7 \<or> d = 8 \<or> d = 9"
    using assms by arith
  then show "is_digit (digit_char d)" "digit_val (digit_char d) = d"
    "digit_char d \<noteq> CHR ''+''" "digit_char d \<noteq> CHR ''-''" "digit_char d \<noteq> CHR ''/''"
    "digit_char d \<noteq> CHR ''*''"
    by (auto simp: is_digit_def digit_val_def digit_char_def char_of_eq_iff)
qed

lemma zero_char: "CHR ''0'' = digit_char 0"
  by (simp add: digit_char_def char_of_eq_iff eq_commute [of "CHR ''0''"])

lemma decimal_digits: "c \<in> set (decimal n) \<Longrightarrow> \<exists>d < 10. c = digit_char d"
proof (induction n rule: decimal.induct)
  case (1 u)
  show ?case
  proof (cases "u \<ge> 10")
    case True
    then have "c \<in> set (decimal (u div 10)) \<or> c = digit_char (u mod 10)"
      using "1.prems" by (subst (asm) decimal.simps) auto
    then show ?thesis using "1.IH" True by (auto intro: exI [of _ "u mod 10"])
  next
    case False
    then have "c = digit_char u" using "1.prems" by (subst (asm) decimal.simps) auto
    then show ?thesis using False by (intro exI [of _ u]) simp
  qed
qed

lemma decimal_nonempty: "decimal n \<noteq> []"
  by (subst decimal.simps) auto

lemma ParseUint_loop_append:
  "ParseUint_loop n (s @ t) =
     (case ParseUint_loop n s of (m, None) \<Rightarrow> ParseUint_loop m t | (m, Some e) \<Rightarrow> (m, Some e))"
  by (induction s arbitrary: n) (auto simp: Let_def)

lemma ParseUint_loop_digit:
  assumes "d < 10" "n * 10 + d \<le> maxVal32"
  shows "ParseUint_loop n [digit_char d] = (n * 10 + d, None)"
proof -
  have "n * 10 + d < 2 ^ 64" "n < maxUint64 div 10 + 1"
    using assms(2) by (simp_all add: maxVal32_def maxUint64_def)
  then show ?thesis
    using assms by (simp add: digit_char_props Let_def)
qed

lemma ParseUint_loop_decimal:
  "n \<le> maxVal32 \<Longrightarrow> ParseUint_loop 0 (decimal n) = (n, None)"
proof (induction n rule: decimal.induct)
  case (1 u)
  show ?case
  proof (cases "u \<ge> 10")
    case True
    have ih: "ParseUint_loop 0 (decimal (u div 10)) = (u div 10, None)"
      using "1.IH" True "1.prems" by simp
    have "ParseUint_loop (u div 10) [digit_char (u mod 10)] = (u div 10 * 10 + u mod 10, None)"
      using "1.prems" by (intro ParseUint_loop_digit) auto
    then show ?thesis
      using True ih by (subst decimal.simps) (simp add: ParseUint_loop_append)
  next
    case False
    then have "ParseUint_loop 0 [digit_char u] = (0 * 10 + u, None)"
      using "1.prems" by (intro ParseUint_loop_digit) auto
    then show ?thesis using False by (subst decimal.simps) simp
  qed
qed

lemma ParseUint_loop_zero:
  "ParseUint_loop 0 (CHR ''0'' # t) = ParseUint_loop 0 t"
  by (simp add: is_digit_def digit_val_def maxUint64_def maxVal32_def)

lemma ParseUint_loop_zeros:
  "ParseUint_loop 0 (replicate k (CHR ''0'') @ s) = ParseUint_loop 0 s"
  by (induction k) (simp_all add: ParseUint_loop_zero del: ParseUint_loop.simps)

lemma ParseUint_padded:
  "n \<le> maxVal32 \<Longrightarrow> ParseUint (replicate k (CHR ''0'') @ decimal n) = (n, None)"
  by (simp add: ParseUint_def decimal_nonempty ParseUint_loop_zeros ParseUint_loop_decimal)

lemma hd_padded:
  "\<exists>d < 10. hd (replicate k (CHR ''0'') @ decimal n) = digit_char d"
proof (cases k)
  case 0
  have "hd (decimal n) \<in> set (decimal n)" using decimal_nonempty by simp
  then show ?thesis using 0 decimal_digits by simp
next
  case (Suc j)
  then show ?thesis by (auto simp: zero_char intro: exI [of _ 0])
qed

lemma ParseInt_appendInt:
  assumes "- (2 ^ 31) \<le> x" "x < 2 ^ 31"
  shows "ParseInt (appendInt x width) = (x, None)"
proof (cases "x < 0")
  case True
  let ?s = "replicate (width - length (decimal (nat \<bar>x\<bar>))) (CHR ''0'') @ decimal (nat \<bar>x\<bar>)"
  have a: "appendInt x width = CHR ''-'' # ?s" using True by (simp add: appendInt_def Let_def)
  have "nat \<bar>x\<bar> \<le> maxVal32" using assms True by (simp add: maxVal32_def)
  then have p: "ParseUint ?s = (nat \<bar>x\<bar>, None)" by (rule ParseUint_padded)
  have "\<not> nat \<bar>x\<bar> > 2 ^ 31" using assms True by auto
  then show ?thesis using True p unfolding a ParseInt_def by (simp add: Let_def)
next
  case False
  let ?s = "replicate (width - length (decimal (nat \<bar>x\<bar>))) (CHR ''0'') @ decimal (nat \<bar>x\<bar>)"
  have a: "appendInt x width = ?s" using False by (simp add: appendInt_def Let_def)
  have "nat \<bar>x\<bar> \<le> maxVal32" using assms False by (simp add: maxVal32_def)
  then have p: "ParseUint ?s = (nat \<bar>x\<bar>, None)" by (rule ParseUint_padded)
  obtain d where d: "d < 10" "hd ?s = digit_char d" using hd_padded by blast
  have h: "hd ?s \<noteq> CHR ''+''" "hd ?s \<noteq> CHR ''-''" using d digit_char_props by auto
  have ne: "?s \<noteq> []" using decimal_nonempty by simp
  have "\<not> nat \<bar>x\<bar> \<ge> 2 ^ 31" using assms False by auto
  then show ?thesis using False p h ne unfolding a ParseInt_def by (simp add: Let_def)
qed

lemma ParseInt_decimal:
  assumes "n < 2 ^ 31"
  shows "ParseInt (decimal n) = (int n, None)"
proof -
  have "ParseInt (appendInt (int n) 0) = (int n, None)"
    using assms by (intro ParseInt_appendInt) auto
  then show ?thesis by (simp add: appendInt_def)
qed

lemma strings_Index_ge: "- 1 \<le> strings_Index s c"
  by (induction s) (auto simp: Let_def)

lemma strings_Index_iff: "strings_Index s c \<noteq> - 1 \<longleftrightarrow> c \<in> set s"
proof (induction s)
  case Nil
  then show ?case by simp
next
  case (Cons x s)
  then show ?case using strings_Index_ge [of s c] by (auto simp: Let_def)
qed

lemma strings_Split_nonempty: "strings_Split s c \<noteq> []"
  by (induction s) (auto split: list.splits)

lemma strings_Split_none: "c \<notin> set s \<Longrightarrow> strings_Split s c = [s]"
  by (induction s) auto

lemma strings_Split_first:
  "c \<notin> set a \<Longrightarrow> strings_Split (a @ c # b) c = a # strings_Split b c"
  by (induction a) auto

lemma strings_Split_two:
  assumes "c \<in> set s"
  shows "\<exists>t0 t1 ts. strings_Split s c = t0 # t1 # ts"
proof -
  obtain a b where s: "s = a @ c # b" "c \<notin> set a"
    using assms by (meson split_list_first)
  obtain t1 ts where "strings_Split b c = t1 # ts"
    using strings_Split_nonempty by (cases "strings_Split b c") auto
  then show ?thesis using s strings_Split_first by fastforce
qed

lemma expand_entry_total: "\<exists>gs. expand_entry convertCP m = Inr gs"
proof (cases "CHR ''/'' \<in> set (Date m)")
  case True
  then obtain t0 t1 ts where "strings_Split (Date m) (CHR ''/'') = t0 # t1 # ts"
    using strings_Split_two by blast
  then show ?thesis using True by (simp add: expand_entry_def strings_Index_iff Let_def)
next
  case False
  then show ?thesis by (simp add: expand_entry_def strings_Index_iff)
qed

lemmas parse_eval =
  ParseInt_def ParseUint_def is_digit_def digit_val_def maxUint64_def maxVal32_def

lemma decimal_15: "decimal 15 = ''15''"
  by (simp add: decimal.simps digit_char_def char_of_eq_iff)

section \<open>The expansion of the configured entries\<close>

lemma decimal_no_slash: "CHR ''/'' \<notin> set (decimal n)"
  using decimal_digits digit_char_props(5) by metis


lemma expand_loop_eq:
  "expand_loop convertCP ms eL = Inr (eL @ concat (map (\<lambda>m. projr (expand_entry convertCP m)) ms))"
proof (induction ms arbitrary: eL)
  case Nil
  then show ?case by simp
next
  case (Cons m ms)
  obtain gs where "expand_entry convertCP m = Inr gs" using expand_entry_total by blast
  then show ?case using Cons by simp
qed

lemma expand_entry_star:
  assumes "Date m = ''*/'' @ decimal D" "D < 2 ^ 31"
  shows "expand_entry convertCP m = Inr (star_entries (int D) (convertCP (Text m)) (Image m))"
proof -
  have "strings_Split (Date m) (CHR ''/'') = ''*'' # strings_Split (decimal D) (CHR ''/'')"
    using strings_Split_first [of "CHR ''/''" "''*''" "decimal D"] assms(1) by simp
  then have s: "strings_Split (Date m) (CHR ''/'') = [''*'', decimal D]"
    by (simp add: strings_Split_none decimal_no_slash)
  have "CHR ''/'' \<in> set (Date m)" using assms(1) by simp
  then show ?thesis
    using s assms(2) by (simp add: expand_entry_def strings_Index_iff ParseInt_decimal)
qed






text \<open>
  C3: an entry whose \<open>Date\<close> is \<open>*/D\<close>, with \<open>D\<close> a day number in decimal digits
  (such as \<open>*/15\<close>), makes \<open>readConfigurationfile\<close> emit exactly 12 date-addressed
  records, for the months 1 to 12 in this order, all with the day \<open>D\<close>, the converted
  text of the entry and its image; they stand between the records of the entries before
  it and those of the entries after it.
\<close>

theorem star_date_entries:
  assumes "os_Open w filename = Inr f" "ReadAll w f = Inr data"
    "xml_Unmarshal w data = Inr (pre @ m # post)"
    "Date m = ''*/'' @ decimal D" "1 \<le> D" "D \<le> 31"
  shows "\<exists>before after.
     expand_loop convertCP pre [] = Inr before \<and> expand_loop convertCP post [] = Inr after \<and>
     readConfigurationfile w convertCP filename =
       Returned (before @
         map (\<lambda>j. \<lparr>month = int j, day = int D, etext = convertCP (Text m), weekday = [],
                    image = Image m\<rparr>) [1..<13] @ after)"
proof -
  have "expand_entry convertCP m = Inr (star_entries (int D) (convertCP (Text m)) (Image m))"
    using assms(4,6) by (intro expand_entry_star) auto
  then have "expand_loop convertCP (pre @ m # post) [] =
      Inr (concat (map (\<lambda>m. projr (expand_entry convertCP m)) pre) @
           star_entries (int D) (convertCP (Text m)) (Image m) @
           concat (map (\<lambda>m. projr (expand_entry convertCP m)) post))"
    by (simp add: expand_loop_eq)
  then show ?thesis
    using assms(1-3)
    by (simp add: readConfigurationfile_def expand_loop_eq [of _ pre] expand_loop_eq [of _ post]
        star_entries_def comp_def)
qed

theorem star_date_entries_witness:
  "readConfigurationfile sample_sys id ''events.xml'' =
     Returned
       (map (\<lambda>j. \<lparr>month = int j, day = 15, etext = ''Rent'', weekday = [],
                  image = ''house.png''\<rparr>) [1..<13] @
        [\<lparr>month = 3, day = 7, etext = ''Birthday'', weekday = [], image = []\<rparr>,
         \<lparr>month = 0, day = 0, etext = ''Gym'', weekday = ''Monday'', image = []\<rparr>])"
proof -
  let ?m = "\<lparr>Date = ''*/15'', Text = ''Rent'', Image = ''house.png''\<rparr>"
  let ?post = "[\<lparr>Date = ''3/7'', Text = ''Birthday'', Image = []\<rparr>,
      \<lparr>Date = ''Monday'', Text = ''Gym'', Image = []\<rparr>]"
  have 1: "os_Open sample_sys ''events.xml'' = Inr 3"
    and 2: "ReadAll sample_sys 3 = Inr ''<Gocal>...</Gocal>''"
    and 3: "xml_Unmarshal sample_sys ''<Gocal>...</Gocal>'' = Inr ([] @ ?m # ?post)"
    by (simp_all add: sample_sys_def sample_events_def)
  have 4: "Date ?m = ''*/'' @ decimal 15" by (simp add: decimal_15)
  obtain before after where
    b: "expand_loop id [] [] = Inr before" and a: "expand_loop id ?post [] = Inr after"
    and r: "readConfigurationfile sample_sys id ''events.xml'' =
       Returned (before @
         map (\<lambda>j. \<lparr>month = int j, day = int 15, etext = id (Text ?m), weekday = [],
                    image = Image ?m\<rparr>) [1..<13] @ after)"
    using star_date_entries [OF 1 2 3 4, of id] by auto
  have "before = []" using b by simp
  moreover have "after = [\<lparr>month = 3, day = 7, etext = ''Birthday'', weekday = [], image = []\<rparr>,
         \<lparr>month = 0, day = 0, etext = ''Gym'', weekday = ''Monday'', image = []\<rparr>]"
    using a by (simp add: expand_entry_def parse_eval)
  ultimately show ?thesis using r by simp
qed

section \<open>Properties of the calendar-exchange importer\<close>






section \<open>The shapes of the produced records\<close>




section \<open>Properties of computeMoonphases\<close>

lemma moon_test_eq:
  "moon_test lib jdeNew yr mo i label moon =
     (if (case JDToCalendar lib jdeNew of (y, m, d) \<Rightarrow> y = yr \<and> m = mo \<and> go_int d = i)
      then moon(i \<mapsto> label) else moon)"
  by (auto simp: moon_test_def split: prod.splits)

lemma moon_body_eq:
  "moon_body lib da mo yr i moon k =
     (if k = i then moon_mark lib da mo yr i (moon i) else moon k)"
  by (simp add: moon_body_def moon_test_eq phase_on_def moon_mark_def Let_def)

lemma moon_loop_eq:
  "distinct js \<Longrightarrow>
   moon_loop lib da mo yr js moon k =
     (if k \<in> set js then moon_mark lib da mo yr k (moon k) else moon k)"
proof (induction js arbitrary: moon)
  case Nil
  then show ?case by simp
next
  case (Cons j js)
  then show ?case by (auto simp: moon_body_eq)
qed

lemma offsets: "set (map int [0..<32]) = {k. 0 \<le> k \<and> k < 32}" "distinct (map int [0..<32])"
proof -
  show "set (map int [0..<32]) = {k. 0 \<le> k \<and> k < 32}"
  proof (intro set_eqI iffI)
    fix k :: int
    assume "k \<in> {k. 0 \<le> k \<and> k < 32}"
    then have "nat k \<in> set [0..<32]" "k = int (nat k)" by auto
    then show "k \<in> set (map int [0..<32])" by (metis image_eqI set_map)
  qed auto
  show "distinct (map int [0..<32])" by (simp add: distinct_map)
qed

lemma go_int_ge: "1 \<le> d \<Longrightarrow> 1 \<le> go_int d"
  by (simp add: go_int_def le_floor_iff)

lemma computeMoonphases_outside:
  assumes "days_from_one lib" "k < 1 \<or> 31 < k"
  shows "computeMoonphases lib moon da mo yr k = moon k"
proof -
  have "\<not> phase_on lib phase da mo yr 0" for phase
  proof
    assume "phase_on lib phase da mo yr 0"
    then obtain y m d where "JDToCalendar lib (phase (decimalYear lib da mo yr 0)) = (y, m, d)"
      "go_int d = 0"
      by (auto simp: phase_on_def split: prod.splits)
    moreover have "1 \<le> snd (snd (JDToCalendar lib (phase (decimalYear lib da mo yr 0))))"
      using assms(1) by (simp add: days_from_one_def)
    ultimately show False using go_int_ge [of d] by simp
  qed
  then have "moon_mark lib da mo yr 0 (moon 0) = moon 0" by (simp add: moon_mark_def)
  moreover have "computeMoonphases lib moon da mo yr k =
     (if k \<in> {k. 0 \<le> k \<and> k < 32} then moon_mark lib da mo yr k (moon k) else moon k)"
    unfolding computeMoonphases_def by (simp only: moon_loop_eq [OF offsets(2)] offsets(1))
  ultimately show ?thesis using assms(2) by (cases "k = 0") auto
qed

lemma int_div_bounds:
  fixes a k :: int
  assumes "0 < k"
  shows "k * (a div k) \<le> a" "a < k * (a div k) + k"
  using mult_div_mod_eq [of k a] pos_mod_sign [of k a] pos_mod_bound [of k a] assms
  by linarith+

lemma int_div_below:
  fixes a x :: int
  assumes "a < x * 10000"
  shows "1 \<le> x - a div 10000"
proof -
  have "10000 * (a div 10000) \<le> a" by (rule int_div_bounds) simp
  then have "10000 * (a div 10000) < 10000 * x" using assms by linarith
  then have "a div 10000 < x" by simp
  then show ?thesis by simp
qed

lemma meeus_day_int:
  fixes b :: int
  defines "c \<equiv> (b * 100 - 12210) div 36525"
  defines "d \<equiv> (36525 * c) div 100"
  defines "e \<equiv> ((b - d) * 10000) div 306001"
  shows "1 \<le> b - d - (306001 * e) div 10000"
proof -
  have c1: "36525 * c \<le> b * 100 - 12210" and c2: "b * 100 - 12210 < 36525 * c + 36525"
    unfolding c_def by (rule int_div_bounds; simp)+
  have d1: "100 * d \<le> 36525 * c" and d2: "36525 * c < 100 * d + 100"
    unfolding d_def by (rule int_div_bounds; simp)+
  have x: "123 \<le> b - d" "b - d \<le> 488" using c1 c2 d1 d2 by linarith+
  have e1: "306001 * e \<le> (b - d) * 10000" and e2: "(b - d) * 10000 < 306001 * e + 306001"
    unfolding e_def by (rule int_div_bounds; simp)+
  have eb: "4 \<le> e" "e \<le> 15"
  proof -
    show "4 \<le> e"
    proof (rule ccontr)
      assume "\<not> 4 \<le> e"
      then have "306001 * e \<le> 306001 * 3" by (intro mult_left_mono) auto
      then show False using x(1) e2 by simp
    qed
    show "e \<le> 15"
    proof (rule ccontr)
      assume "\<not> e \<le> 15"
      then have "306001 * 16 \<le> 306001 * e" by (intro mult_left_mono) auto
      then show False using x(2) e1 by simp
    qed
  qed
  have "306001 * e \<noteq> (b - d) * 10000"
  proof
    assume eq: "306001 * e = (b - d) * 10000"
    have "(306001 * e) mod 1000 = ((306001 mod 1000) * e) mod 1000"
      by (simp only: mod_mult_left_eq)
    then have "(306001 * e) mod 1000 = e" using eb by simp
    moreover have "((b - d) * 10000) mod 1000 = 0"
    proof -
      have "(b - d) * 10000 = 1000 * ((b - d) * 10)" by simp
      then show ?thesis by (simp only: mod_mult_self1_is_0)
    qed
    ultimately show False using eq eb by simp
  qed
  then have lt: "306001 * e < (b - d) * 10000" using e1 by linarith
  then show ?thesis by (rule int_div_below)
qed

lemma days_from_one_mean: "days_from_one mean_astro"
proof -
  have "1 \<le> snd (snd (meeus_JDToCalendar jd))" for jd
  proof -
    define z where "z = \<lfloor>jd + 1 / 2\<rfloor>"
    define b where "b = (if z \<ge> 2299161
               then (let al = (z * 100 - 186721625) div 3652425 in z + 1 + al - al div 4)
               else z) + 1524"
    define q where "q = b - (36525 * ((b * 100 - 12210) div 36525)) div 100 -
        (306001 * (((b - (36525 * ((b * 100 - 12210) div 36525)) div 100) * 10000) div 306001)) div 10000"
    have f: "0 \<le> jd + 1 / 2 - real_of_int z" unfolding z_def by linarith
    have "1 \<le> q" unfolding q_def by (rule meeus_day_int)
    then have "1 \<le> real_of_int q + (jd + 1 / 2 - real_of_int z)" using f by linarith
    moreover have "snd (snd (meeus_JDToCalendar jd)) = real_of_int q + (jd + 1 / 2 - real_of_int z)"
      unfolding meeus_JDToCalendar_def q_def b_def z_def Let_def snd_conv by (rule refl)
    ultimately show ?thesis by simp
  qed
  then show ?thesis by (simp add: days_from_one_def mean_astro_def)
qed

text \<open>
  C4: in \<open>computeMoonphases\<close> the four phase functions are tested, for each day
  offset, in the order New, Full, First, Last, and a later test that succeeds
  overwrites an earlier one. So the value left at an offset from 0 to 31 is Last if the
  test for Last succeeds, otherwise First, otherwise Full, otherwise New, otherwise the
  old value; Last wins every collision. Other keys keep their value.
\<close>

theorem computeMoonphases_priority:
  "computeMoonphases lib moon da mo yr k =
     (if 0 \<le> k \<and> k < 32 then
        (if phase_on lib (moonphase_Last lib) da mo yr k then Some ''Last''
         else if phase_on lib (moonphase_First lib) da mo yr k then Some ''First''
         else if phase_on lib (moonphase_Full lib) da mo yr k then Some ''Full''
         else if phase_on lib (moonphase_New lib) da mo yr k then Some ''New''
         else moon k)
      else moon k)"
  unfolding computeMoonphases_def
  by (simp only: moon_loop_eq [OF offsets(2)] offsets(1) moon_mark_def mem_Collect_eq)

theorem computeMoonphases_priority_witness:
  "computeMoonphases same_day_astro Map.empty 1 1 2023 5 = Some ''Last'' \<and>
   computeMoonphases mean_astro Map.empty 1 1 2023 14 = Some ''Last'' \<and>
   computeMoonphases mean_astro Map.empty 1 1 2023 7 = Some ''Full''"
proof -
  have a: "phase_on same_day_astro (moonphase_Last same_day_astro) 1 1 2023 5"
    "phase_on same_day_astro (moonphase_New same_day_astro) 1 1 2023 5"
    by code_simp+
  have b: "phase_on mean_astro (moonphase_Last mean_astro) 1 1 2023 14"
    by code_simp
  have c: "\<not> phase_on mean_astro (moonphase_Last mean_astro) 1 1 2023 7"
    "\<not> phase_on mean_astro (moonphase_First mean_astro) 1 1 2023 7"
    "phase_on mean_astro (moonphase_Full mean_astro) 1 1 2023 7"
    by code_simp+
  show ?thesis
    using a(1) b c
      computeMoonphases_priority [of same_day_astro Map.empty 1 1 2023 5]
      computeMoonphases_priority [of mean_astro Map.empty 1 1 2023 14]
      computeMoonphases_priority [of mean_astro Map.empty 1 1 2023 7]
    by simp
qed

text \<open>
  C9: for every month and year, \<open>computeMoonphases(moon, 1, M, Y)\<close> stores nothing
  under a key outside 1 to 31: every such key keeps the value it had. The day of the
  month that the calendar conversion of the library returns is at least 1.
\<close>

theorem computeMoonphases_keys:
  assumes "days_from_one lib" "k < 1 \<or> 31 < k"
  shows "computeMoonphases lib moon 1 M Y k = moon k"
  using assms by (rule computeMoonphases_outside)

theorem computeMoonphases_keys_witness:
  "days_from_one mean_astro \<and>
   computeMoonphases mean_astro Map.empty 1 1 2023 0 = None \<and>
   computeMoonphases mean_astro Map.empty 1 1 2023 32 = None"
  using days_from_one_mean
    computeMoonphases_keys [of mean_astro 0 Map.empty 1 2023]
    computeMoonphases_keys [of mean_astro 32 Map.empty 1 2023]
  by simp

section \<open>Properties of computeMoonphasesJ\<close>

lemma written_refl: "written m {} m"
  by (simp add: written_def)

lemma written_step:
  assumes "written (m0(s \<mapsto> v)) W m"
  shows "written m0 (insert (s, v) W) m"
  using assms unfolding written_def by (auto split: if_splits)

lemma written_trans:
  assumes "written m0 W1 m1" "written m1 W2 m2"
  shows "written m0 (W1 \<union> W2) m2"
proof -
  have "dom m2 = dom m0 \<union> fst ` (W1 \<union> W2)"
    using assms by (simp add: written_def image_Un Un_assoc)
  moreover have "m0 s = Some v \<or> (s, v) \<in> W1 \<union> W2" if "m2 s = Some v" for s v
  proof -
    have "m1 s = Some v \<or> (s, v) \<in> W2" using assms(2) that by (simp add: written_def)
    then show ?thesis using assms(1) by (auto simp: written_def)
  qed
  ultimately show ?thesis by (simp add: written_def)
qed

lemma moonJ_range_written:
  assumes "set ks \<subseteq> set (map fst (moon_funcs lib))"
  shows "\<exists>m. moonJ_range lib dy ks moonJ = Inr m \<and> written moonJ (range_writes lib dy ks) m"
  using assms
proof (induction ks arbitrary: moonJ)
  case Nil
  then show ?case by (simp add: range_writes_def written_refl)
next
  case (Cons key ks)
  then obtain f where f: "map_of (moon_funcs lib) key = Some f"
    by (metis list.set_intros(1) map_of_eq_None_iff not_Some_eq set_map subsetD)
  have "set ks \<subseteq> set (map fst (moon_funcs lib))" using Cons.prems by simp
  from Cons.IH [OF this, of "moonJ(moonString lib (f dy) \<mapsto> key)"]
  obtain m where m: "moonJ_range lib dy ks (moonJ(moonString lib (f dy) \<mapsto> key)) = Inr m"
    "written (moonJ(moonString lib (f dy) \<mapsto> key)) (range_writes lib dy ks) m"
    by blast
  have "written moonJ (insert (moonString lib (f dy), key) (range_writes lib dy ks)) m"
    using m(2) by (rule written_step)
  moreover have "range_writes lib dy (key # ks) =
      insert (moonString lib (f dy), key) (range_writes lib dy ks)"
    using f by (simp add: range_writes_def)
  ultimately show ?case using m(1) f by simp
qed

lemma moonJ_loop_written:
  assumes "\<forall>i \<in> set js. set (order i) \<subseteq> set (map fst (moon_funcs lib))"
  shows "\<exists>m. moonJ_loop lib order yr js moonJ = Inr m \<and>
     written moonJ (\<Union>i \<in> set js. range_writes lib (decimalYearJ lib yr i) (order i)) m"
  using assms
proof (induction js arbitrary: moonJ)
  case Nil
  then show ?case by (simp add: written_refl)
next
  case (Cons j js)
  obtain m1 where m1: "moonJ_range lib (decimalYearJ lib yr j) (order j) moonJ = Inr m1"
    "written moonJ (range_writes lib (decimalYearJ lib yr j) (order j)) m1"
    using moonJ_range_written [of "order j" lib "decimalYearJ lib yr j" moonJ] Cons.prems
    by auto
  obtain m where m: "moonJ_loop lib order yr js m1 = Inr m"
    "written m1 (\<Union>i \<in> set js. range_writes lib (decimalYearJ lib yr i) (order i)) m"
    using Cons.IH [of m1] Cons.prems by auto
  have "written moonJ (range_writes lib (decimalYearJ lib yr j) (order j) \<union>
      (\<Union>i \<in> set js. range_writes lib (decimalYearJ lib yr i) (order i))) m"
    using m1(2) m(2) by (rule written_trans)
  then show ?case using m1(1) m(1) by simp
qed

lemma range_writes_order:
  assumes "range_order lib ks"
  shows "range_writes lib dy ks =
     set (map (\<lambda>(moonkey, f). (moonString lib (f dy), moonkey)) (moon_funcs lib))"
proof -
  have ks: "set ks = {''Full'', ''New'', ''First'', ''Last''}"
    using assms by (simp add: range_order_def moon_funcs_def)
  show ?thesis
    unfolding range_writes_def ks by (simp add: moon_funcs_def insert_commute)
qed

lemma computeMoonphasesJ_written:
  assumes "\<forall>i < nat (daysInYear lib yr). range_order lib (order i)"
  shows "\<exists>m. computeMoonphasesJ lib order moonJ yr = Inr m \<and>
     written moonJ (set (moon_writes lib yr)) m"
proof -
  let ?n = "nat (daysInYear lib yr)"
  have sub: "\<forall>i \<in> set [0..<?n]. set (order i) \<subseteq> set (map fst (moon_funcs lib))"
    using assms by (simp add: range_order_def)
  have "(\<Union>i \<in> set [0..<?n]. range_writes lib (decimalYearJ lib yr i) (order i)) =
      set (moon_writes lib yr)"
    using assms by (simp add: moon_writes_def range_writes_order)
  then show ?thesis
    using moonJ_loop_written [OF sub, of yr moonJ] by (simp add: computeMoonphasesJ_def)
qed

lemma moon_writes_length: "length (moon_writes lib yr) = 4 * nat (daysInYear lib yr)"
  by (simp add: moon_writes_def length_concat comp_def moon_funcs_def sum_list_triv)

lemma labels_writes: "(s, v) \<in> set (moon_writes lib yr) \<Longrightarrow> v \<in> labels"
  by (auto simp: moon_writes_def moon_funcs_def labels_def)

lemma daysInYear_cases: "daysInYear lib yr = (if LeapYearGregorian lib yr then 366 else 365)"
  by (simp add: daysInYear_def)

lemma computeMoonphasesJ_order_independent:
  assumes "\<forall>i < nat (daysInYear lib yr). range_order lib (order1 i)"
    "\<forall>i < nat (daysInYear lib yr). range_order lib (order2 i)"
    "\<forall>s v v'. (s, v) \<in> set (moon_writes lib yr) \<and> (s, v') \<in> set (moon_writes lib yr) \<longrightarrow> v = v'"
  shows "computeMoonphasesJ lib order1 Map.empty yr = computeMoonphasesJ lib order2 Map.empty yr"
proof -
  obtain m1 where m1: "computeMoonphasesJ lib order1 Map.empty yr = Inr m1"
    "written Map.empty (set (moon_writes lib yr)) m1"
    using computeMoonphasesJ_written [OF assms(1)] by blast
  obtain m2 where m2: "computeMoonphasesJ lib order2 Map.empty yr = Inr m2"
    "written Map.empty (set (moon_writes lib yr)) m2"
    using computeMoonphasesJ_written [OF assms(2)] by blast
  have d: "dom m1 = dom m2" using m1(2) m2(2) by (simp add: written_def)
  have "m1 s = m2 s" for s
  proof (cases "m1 s")
    case None
    then have "s \<notin> dom m1" by (simp add: domIff)
    then have "s \<notin> dom m2" using d by simp
    then show ?thesis using None by (simp add: domIff)
  next
    case (Some v)
    then have "s \<in> dom m2" using d by (metis domI)
    then obtain v' where v': "m2 s = Some v'" by (auto simp: domIff)
    have "(s, v) \<in> set (moon_writes lib yr)" "(s, v') \<in> set (moon_writes lib yr)"
      using Some v' m1(2) m2(2) by (auto simp: written_def)
    then show ?thesis using assms(3) Some v' by auto
  qed
  then show ?thesis using m1(1) m2(1) by auto
qed

lemma days_2023: "daysInYear mean_astro 2023 = 365"
  by (simp add: daysInYear_def mean_astro_def gregorian_leap_def)

lemma literal_order_ok: "range_order mean_astro (literal_order i)"
  by (simp add: range_order_def literal_order_def moon_funcs_def insert_commute)

lemma snap_range_2023:
  assumes "i < 365" "q \<in> {0, 1 / 4, 1 / 2, 3 / 4}"
  shows "\<exists>n \<in> {284..297}. snap (decimalYearJ mean_astro 2023 i) q = real_of_int n + q"
proof -
  define y where "y = decimalYearJ mean_astro 2023 i"
  define x where "x = (y - 2000) * 12.3685 - q + 1 / 2"
  have "y = 2023 + (real i - 1) / 365"
    by (simp add: y_def decimalYearJ_def days_2023)
  moreover have "0 \<le> real i" "real i \<le> 364" using assms(1) by simp_all
  ultimately have y: "2023 - 1 / 365 \<le> y" "y \<le> 2023 + 363 / 365"
    by (simp_all add: field_simps)
  have q: "0 \<le> q" "q \<le> 3 / 4" using assms(2) by auto
  define t where "t = (y - 2000) * 12.3685"
  have "(23 - 1 / 365) * 12.3685 \<le> t" "t \<le> (23 + 363 / 365) * 12.3685"
    using y unfolding t_def by (intro mult_right_mono; simp)+
  moreover have "(1137 / 4 :: real) \<le> (23 - 1 / 365) * 12.3685" "(23 + 363 / 365) * 12.3685 < (595 / 2 :: real)"
    by simp_all
  ultimately have t: "1137 / 4 \<le> t" "t < 595 / 2" by linarith+
  have "x = t - q + 1 / 2" by (simp add: x_def t_def)
  then have "284 \<le> x" "x < 298" using t q by linarith+
  then have "284 \<le> \<lfloor>x\<rfloor>" "\<lfloor>x\<rfloor> \<le> 297" by (simp_all add: le_floor_iff floor_le_iff)
  then have "\<lfloor>x\<rfloor> \<in> {284..297}" by simp
  moreover have "snap y q = real_of_int \<lfloor>x\<rfloor> + q" by (simp add: snap_def x_def)
  ultimately show ?thesis unfolding y_def by blast
qed

lemma moon_writes_2023:
  "fst ` set (moon_writes mean_astro 2023) \<subseteq> mean_key ` ({284..297} \<times> {0, 1 / 4, 1 / 2, 3 / 4})"
proof
  fix s
  assume "s \<in> fst ` set (moon_writes mean_astro 2023)"
  then obtain i key f where i: "i < 365" and f: "(key, f) \<in> set (moon_funcs mean_astro)"
    and sf: "s = moonString mean_astro (f (decimalYearJ mean_astro 2023 i))"
    by (auto simp: moon_writes_def days_2023)
  have "\<exists>q \<in> {0, 1 / 4, 1 / 2, 3 / 4 :: real}. f = (\<lambda>y. mean_jde (snap y q))"
    using f by (auto simp: moon_funcs_def mean_astro_def)
  then obtain q where q: "q \<in> {0, 1 / 4, 1 / 2, 3 / 4 :: real}"
    and s: "s = moonString mean_astro (mean_jde (snap (decimalYearJ mean_astro 2023 i) q))"
    using sf by blast
  obtain n where "n \<in> {284..297}" "snap (decimalYearJ mean_astro 2023 i) q = real_of_int n + q"
    using snap_range_2023 [OF i q] by blast
  then have "s = mean_key (n, q)" "(n, q) \<in> {284..297} \<times> {0, 1 / 4, 1 / 2, 3 / 4}"
    using s q by (simp_all add: mean_key_def)
  then show "s \<in> mean_key ` ({284..297} \<times> {0, 1 / 4, 1 / 2, 3 / 4})" by blast
qed

text \<open>
  C1, as amended: for every year and every iteration order of the four keys,
  \<open>computeMoonphasesJ\<close>, started on the empty map, returns a map whose keys are
  exactly the dates of the phase instants computed for the day indices of the year (365
  of them, or 366 in a Gregorian leap year) and the four phase functions; every value
  is one of the four labels, and is a label of a phase computed to fall on its key. The
  map has at most four entries for each day index.
\<close>

theorem computeMoonphasesJ_entries:
  assumes "\<forall>i < nat (daysInYear lib yr). range_order lib (order i)"
  shows "\<exists>m. computeMoonphasesJ lib order Map.empty yr = Inr m \<and>
     dom m = fst ` set (moon_writes lib yr) \<and>
     (\<forall>s v. m s = Some v \<longrightarrow> (s, v) \<in> set (moon_writes lib yr) \<and> v \<in> labels) \<and>
     card (dom m) \<le> 4 * (if LeapYearGregorian lib yr then 366 else 365)"
proof -
  obtain m where m: "computeMoonphasesJ lib order Map.empty yr = Inr m"
    "written Map.empty (set (moon_writes lib yr)) m"
    using computeMoonphasesJ_written [OF assms] by blast
  have d: "dom m = fst ` set (moon_writes lib yr)" using m(2) by (simp add: written_def)
  have v: "\<forall>s v. m s = Some v \<longrightarrow> (s, v) \<in> set (moon_writes lib yr) \<and> v \<in> labels"
    using m(2) labels_writes by (fastforce simp: written_def)
  have "card (dom m) \<le> card (set (moon_writes lib yr))" unfolding d by (rule card_image_le) simp
  also have "\<dots> \<le> length (moon_writes lib yr)" by (rule card_length)
  also have "\<dots> = 4 * (if LeapYearGregorian lib yr then 366 else 365)"
    by (simp add: moon_writes_length daysInYear_def)
  finally show ?thesis using m(1) d v by blast
qed

theorem computeMoonphasesJ_entries_witness:
  "\<exists>m. computeMoonphasesJ mean_astro literal_order Map.empty 2023 = Inr m \<and>
     dom m = fst ` set (moon_writes mean_astro 2023) \<and> card (dom m) \<le> 1460"
proof -
  have "\<forall>i < nat (daysInYear mean_astro 2023). range_order mean_astro (literal_order i)"
    using literal_order_ok by simp
  moreover have "\<not> LeapYearGregorian mean_astro 2023"
    by (simp add: mean_astro_def gregorian_leap_def)
  ultimately show ?thesis
    using computeMoonphasesJ_entries [of mean_astro 2023 literal_order] by auto
qed

text \<open>
  The claim C1 as stated (an entry for every day of the year, 365 or 366 entries) fails:
  the keys are the dates of the phases, not the days of the year. With the mean phases
  of the sample library, the map for 2023 has fewer than 365 entries: the lunation
  numbers of a year take at most 14 values for each of the four phases.
\<close>

theorem computeMoonphasesJ_entries_counterexample:
  "\<not> isl (computeMoonphasesJ mean_astro literal_order Map.empty 2023) \<and>
   card (dom (projr (computeMoonphasesJ mean_astro literal_order Map.empty 2023))) < 365"
proof -
  obtain m where m: "computeMoonphasesJ mean_astro literal_order Map.empty 2023 = Inr m"
    "written Map.empty (set (moon_writes mean_astro 2023)) m"
    using computeMoonphasesJ_written [of mean_astro 2023 literal_order Map.empty] literal_order_ok
    by blast
  have "dom m = fst ` set (moon_writes mean_astro 2023)" using m(2) by (simp add: written_def)
  then have "dom m \<subseteq> mean_key ` ({284..297} \<times> {0, 1 / 4, 1 / 2, 3 / 4})"
    using moon_writes_2023 by simp
  then have "card (dom m) \<le> card (mean_key ` ({284..297} \<times> {0, 1 / 4, 1 / 2, 3 / 4 :: real}))"
    by (intro card_mono) auto
  also have "\<dots> \<le> card ({284..297 :: int} \<times> {0, 1 / 4, 1 / 2, 3 / 4 :: real})"
    by (intro card_image_le) auto
  also have "\<dots> = 56" by (simp add: card_cartesian_product)
  finally show ?thesis using m(1) by simp
qed

end
